theory Spec2Isabelle
  imports Complex_Main "HOL-Library.Sublist"
begin

section \<open>Constants\<close>

text \<open>
  The constants module. JavaScript numbers are modelled as mathematical reals (the
  decimal constants as exact fractions); counters and DOM measurements, which only take
  integral values, as integers. The repository holds two copies of the constants module
  that differ only in \<open>BIRD_SIZE\<close> (72 and 64); the first one is used here, and no
  general theorem below depends on which of the two values is taken.
\<close>

definition GRAVITY :: real where
  "GRAVITY = 6 / 10"

definition JUMP_STRENGTH :: real where
  "JUMP_STRENGTH = - 8"

definition OBSTACLE_SPEED :: real where
  "OBSTACLE_SPEED = 35 / 10"

definition OBSTACLE_WIDTH :: real where
  "OBSTACLE_WIDTH = 64"

definition OBSTACLE_GAP :: real where
  "OBSTACLE_GAP = 240"

definition OBSTACLE_INTERVAL :: real where
  "OBSTACLE_INTERVAL = 300"

definition BIRD_SIZE :: real where
  "BIRD_SIZE = 72"

definition TOTAL_LIVES :: int where
  "TOTAL_LIVES = 3"

section \<open>Data model\<close>

datatype GameState = START | PLAYING | GAME_OVER

text \<open>
  The \<open>Obstacle\<close> interface. The fields \<open>id\<close> and \<open>x\<close> are prefixed, since
  \<open>id\<close> is the identity function of HOL and a constant \<open>x\<close> would capture the
  variable of that name.
\<close>

record Obstacle =
  obs_id :: int
  obs_x :: real
  topHeight :: real
  width :: real
  passed :: bool

text \<open>
  The simulation state is what the game loop reads and writes: the phase \<open>gameState\<close>
  and the refs \<open>scoreRef\<close>, \<open>livesRef\<close>, \<open>charYRef\<close>, \<open>velocityRef\<close>,
  \<open>obstaclesRef\<close>, \<open>isInvulnerableRef\<close> and \<open>lastTimeRef\<close>. The React state
  copies of the same values are written from the refs for rendering and are never read by
  the loop. \<open>timers\<close> counts the invulnerability time-outs that \<open>setTimeout\<close> has
  armed and that have not fired yet.
\<close>

record Sim =
  gameState :: GameState
  score :: int
  lives :: int
  charY :: real
  velocity :: real
  obstacles :: "Obstacle list"
  isInvulnerable :: bool
  lastTime :: real
  timers :: nat

text \<open>
  What one animation frame reads from its environment: the frame's time stamp, the
  measured playfield (\<open>None\<close> when the ref of the container is null, otherwise
  \<open>clientWidth\<close> and \<open>clientHeight\<close>), the value of \<open>Math.random()\<close> and the value
  of \<open>Date.now()\<close>.
\<close>

record Frame =
  frame_time :: real
  frame_container :: "(int \<times> int) option"
  frame_random :: real
  frame_now :: int

definition initialState :: Sim where
  "initialState =
     \<lparr>gameState = START, score = 0, lives = TOTAL_LIVES, charY = 300, velocity = 0,
      obstacles = [], isInvulnerable = False, lastTime = 0, timers = 0\<rparr>"

section \<open>Collision detection\<close>

text \<open>The \<open>for\<close> loop of \<open>checkCollision\<close> over the obstacles.\<close>

fun collisionLoop :: "real \<Rightarrow> real \<Rightarrow> real \<Rightarrow> real \<Rightarrow> Obstacle list \<Rightarrow> bool" where
  "collisionLoop charLeft charRight charTop charBottom [] = False"
| "collisionLoop charLeft charRight charTop charBottom (obs # rest) =
     (let obsRight = obs_x obs + OBSTACLE_WIDTH in
      if charRight > obs_x obs \<and> charLeft < obsRight then
        if charTop < topHeight obs \<or> charBottom > topHeight obs + OBSTACLE_GAP then True
        else collisionLoop charLeft charRight charTop charBottom rest
      else collisionLoop charLeft charRight charTop charBottom rest)"

definition checkCollision :: "real \<Rightarrow> Obstacle list \<Rightarrow> real \<Rightarrow> real \<Rightarrow> bool" where
  "checkCollision cY obs gameHeight gameWidth =
     (let charX = gameWidth / 2 - BIRD_SIZE / 2;
          hitBoxPadding = 12;
          charLeft = charX + hitBoxPadding;
          charRight = charX + BIRD_SIZE - hitBoxPadding;
          charTop = cY + hitBoxPadding;
          charBottom = cY + BIRD_SIZE - hitBoxPadding
      in if cY < 0 \<or> charBottom > gameHeight then True
         else collisionLoop charLeft charRight charTop charBottom obs)"

section \<open>Game mechanics\<close>

definition jump :: "Sim \<Rightarrow> Sim" where
  "jump s = (if gameState s \<noteq> PLAYING then s else s\<lparr>velocity := JUMP_STRENGTH\<rparr>)"

text \<open>
  \<open>endGame\<close> sets the phase; its update of the stored best score belongs to the
  persistence layer and is not part of the simulation state.
\<close>

definition endGame :: "Sim \<Rightarrow> Sim" where
  "endGame s = s\<lparr>gameState := GAME_OVER\<rparr>"

definition takeDamage :: "Sim \<Rightarrow> Sim" where
  "takeDamage s =
     (if isInvulnerable s then s
      else
        let s1 = s\<lparr>lives := lives s - 1\<rparr> in
        if lives s1 \<le> 0 then endGame s1
        else s1\<lparr>isInvulnerable := True, velocity := - 5, timers := Suc (timers s1)\<rparr>)"

text \<open>The callback of the time-out armed by \<open>takeDamage\<close>; it fires once per arming.\<close>

definition invulnerabilityTimeout :: "Sim \<Rightarrow> Sim" where
  "invulnerabilityTimeout s =
     (if timers s = 0 then s else s\<lparr>isInvulnerable := False, timers := timers s - 1\<rparr>)"

text \<open>\<open>resetGame\<close>, with the value of \<open>performance.now()\<close> as argument.\<close>

definition resetGame :: "real \<Rightarrow> Sim \<Rightarrow> Sim" where
  "resetGame t s =
     s\<lparr>gameState := PLAYING, score := 0, lives := TOTAL_LIVES, charY := 300, velocity := 0,
       obstacles := [], isInvulnerable := False, lastTime := t\<rparr>"

fun getContainerDimensions :: "(int \<times> int) option \<Rightarrow> int \<times> int" where
  "getContainerDimensions (Some (clientWidth, clientHeight)) = (clientWidth, clientHeight)"
| "getContainerDimensions None = (400, 600)"

section \<open>The game loop\<close>

text \<open>The capped and normalised time step of a frame.\<close>

definition frame_dt :: "Frame \<Rightarrow> Sim \<Rightarrow> real" where
  "frame_dt f s = min (frame_time f - lastTime s) 32 / (1666 / 100)"

text \<open>Step 1 of \<open>update\<close>: physics.\<close>

definition physics :: "real \<Rightarrow> Sim \<Rightarrow> Sim" where
  "physics dt s =
     (let v = velocity s + GRAVITY * dt in s\<lparr>velocity := v, charY := charY s + v * dt\<rparr>)"

text \<open>Step 2 of \<open>update\<close>: move the obstacles, remove those off screen, spawn a new one.\<close>

definition moveObstacles :: "real \<Rightarrow> Obstacle list \<Rightarrow> Obstacle list" where
  "moveObstacles dt obs = map (\<lambda>ob. ob\<lparr>obs_x := obs_x ob - OBSTACLE_SPEED * dt\<rparr>) obs"

definition removeOffscreen :: "Obstacle list \<Rightarrow> Obstacle list" where
  "removeOffscreen obs = filter (\<lambda>ob. obs_x ob + OBSTACLE_WIDTH > - 100) obs"

definition randomHeight :: "real \<Rightarrow> real \<Rightarrow> real" where
  "randomHeight containerHeight r =
     (let minHeight = 80;
          maxHeight = containerHeight - OBSTACLE_GAP - minHeight
      in real_of_int \<lfloor>r * (maxHeight - minHeight + 1)\<rfloor> + minHeight)"

text \<open>The test of the spawn: no last obstacle, or the last one far enough from the right edge.\<close>

definition spawnDue :: "real \<Rightarrow> Obstacle list \<Rightarrow> bool" where
  "spawnDue containerWidth obs =
     (case rev obs of
        [] \<Rightarrow> True
      | lastObstacle # _ \<Rightarrow> containerWidth - obs_x lastObstacle > OBSTACLE_INTERVAL)"

definition spawn :: "real \<Rightarrow> real \<Rightarrow> real \<Rightarrow> int \<Rightarrow> Obstacle list \<Rightarrow> Obstacle list" where
  "spawn containerWidth containerHeight r now obs =
     (if spawnDue containerWidth obs then
        obs @ [\<lparr>obs_id = now, obs_x = containerWidth + 50,
                topHeight = randomHeight containerHeight r,
                width = OBSTACLE_WIDTH, passed = False\<rparr>]
      else obs)"

text \<open>Step 4 of \<open>update\<close>: the \<open>forEach\<close> that marks obstacles and counts the score.\<close>

fun scoreObstacles :: "real \<Rightarrow> Obstacle list \<Rightarrow> int \<Rightarrow> Obstacle list \<times> int" where
  "scoreObstacles containerWidth [] sc = ([], sc)"
| "scoreObstacles containerWidth (ob # rest) sc =
     (if \<not> passed ob \<and> obs_x ob + OBSTACLE_WIDTH < containerWidth / 2 - BIRD_SIZE / 2 then
        (let (rest', sc') = scoreObstacles containerWidth rest (sc + 1)
         in (ob\<lparr>passed := True\<rparr> # rest', sc'))
      else
        (let (rest', sc') = scoreObstacles containerWidth rest sc
         in (ob # rest', sc')))"

text \<open>The obstacle track of a frame after step 2.\<close>

definition advanceTrack :: "Frame \<Rightarrow> Sim \<Rightarrow> Obstacle list" where
  "advanceTrack f s =
     (let (cw, ch) = getContainerDimensions (frame_container f) in
      spawn (real_of_int cw) (real_of_int ch) (frame_random f) (frame_now f)
        (removeOffscreen (moveObstacles (frame_dt f s) (obstacles s))))"

text \<open>
  One call of \<open>update\<close>. The callback is created anew whenever the phase changes and
  the pending frame of the old one is cancelled, so the \<open>gameState\<close> it tests is the
  phase at the time of the call. Step 3 calls \<open>takeDamage\<close> on a hazard; the scoring
  of step 4 runs in the same call also when that has ended the game. Step 5 copies the refs
  to the rendered state and requests the next frame, which is the next \<open>FrameEvent\<close>
  of a session.
\<close>

definition update :: "Frame \<Rightarrow> Sim \<Rightarrow> Sim" where
  "update f s =
     (if gameState s \<noteq> PLAYING then s
      else
        let dt = frame_dt f s;
            (cw, ch) = getContainerDimensions (frame_container f);
            containerWidth = real_of_int cw;
            containerHeight = real_of_int ch;
            s1 = physics dt (s\<lparr>lastTime := frame_time f\<rparr>);
            s2 = s1\<lparr>obstacles := advanceTrack f s\<rparr>;
            s3 = (if checkCollision (charY s2) (obstacles s2) containerHeight containerWidth
                  then takeDamage s2 else s2);
            (obs', sc') = scoreObstacles containerWidth (obstacles s3) (score s3)
        in s3\<lparr>obstacles := obs', score := sc'\<rparr>)"

section \<open>Sessions\<close>

text \<open>
  The events of one session: an animation frame, a jump input and the firing of an
  invulnerability time-out. A reset starts a new session.
\<close>

datatype Event = FrameEvent Frame | JumpEvent | TimeoutEvent

fun step :: "Event \<Rightarrow> Sim \<Rightarrow> Sim" where
  "step (FrameEvent f) s = update f s"
| "step JumpEvent s = jump s"
| "step TimeoutEvent s = invulnerabilityTimeout s"

fun run :: "Sim \<Rightarrow> Event list \<Rightarrow> Sim" where
  "run s [] = s"
| "run s (e # es) = run (step e s) es"

section \<open>Observations on sessions\<close>

text \<open>
  The invariant of a running or finished session: while playing, between one life and
  \<open>TOTAL_LIVES\<close> lives are left; after the game is over, none is.
\<close>

definition sessionInv :: "Sim \<Rightarrow> bool" where
  "sessionInv s \<longleftrightarrow>
     (case gameState s of
        START \<Rightarrow> False
      | PLAYING \<Rightarrow> 1 \<le> lives s \<and> lives s \<le> TOTAL_LIVES
      | GAME_OVER \<Rightarrow> lives s = 0)"

text \<open>How many times the phase becomes \<open>GAME_OVER\<close> along a run.\<close>

fun gameOverCount :: "Sim \<Rightarrow> Event list \<Rightarrow> nat" where
  "gameOverCount s [] = 0"
| "gameOverCount s (e # es) =
     (if gameState s \<noteq> GAME_OVER \<and> gameState (step e s) = GAME_OVER then 1 else 0)
       + gameOverCount (step e s) es"

text \<open>The frames of a run, in order.\<close>

fun framesOf :: "Event list \<Rightarrow> Frame list" where
  "framesOf [] = []"
| "framesOf (FrameEvent f # es) = f # framesOf es"
| "framesOf (_ # es) = framesOf es"



text \<open>
  The bounds on the height of the upper rock for a playfield of height \<open>H\<close>, with the
  minimum height 80 of \<open>update\<close>.
\<close>

definition heightInBounds :: "int \<Rightarrow> Obstacle \<Rightarrow> bool" where
  "heightInBounds H ob \<longleftrightarrow>
     80 \<le> topHeight ob \<and> topHeight ob + OBSTACLE_GAP \<le> real_of_int H - 80"

section \<open>Example inputs\<close>

definition exampleFrame :: "real \<Rightarrow> (int \<times> int) option \<Rightarrow> int \<Rightarrow> Frame" where
  "exampleFrame t c n =
     \<lparr>frame_time = t, frame_container = c, frame_random = 1 / 2, frame_now = n\<rparr>"

definition exampleObstacle :: "real \<Rightarrow> real \<Rightarrow> bool \<Rightarrow> Obstacle" where
  "exampleObstacle px h p =
     \<lparr>obs_id = 1, obs_x = px, topHeight = h, width = OBSTACLE_WIDTH, passed = p\<rparr>"

text \<open>
  A session on a playfield 300 high, too low for the character at its start position:
  three frames with a hazard, the invulnerability timing out between them.
\<close>

definition hitEvents :: "Event list" where
  "hitEvents =
     [FrameEvent (exampleFrame 16 (Some (400, 300)) 1000), TimeoutEvent,
      FrameEvent (exampleFrame 32 (Some (400, 300)) 1016), TimeoutEvent,
      FrameEvent (exampleFrame 48 (Some (400, 300)) 1032)]"


section \<open>Evaluation of concrete inputs\<close>

lemmas eval_defs =
  update_def resetGame_def initialState_def frame_dt_def physics_def advanceTrack_def
  moveObstacles_def removeOffscreen_def spawn_def spawnDue_def randomHeight_def
  checkCollision_def takeDamage_def endGame_def jump_def invulnerabilityTimeout_def
  exampleFrame_def exampleObstacle_def Let_def
  GRAVITY_def JUMP_STRENGTH_def OBSTACLE_SPEED_def OBSTACLE_WIDTH_def OBSTACLE_GAP_def
  OBSTACLE_INTERVAL_def BIRD_SIZE_def TOTAL_LIVES_def

section \<open>Properties of the stages of a frame\<close>



lemma scoreObstacles_eq:
  "scoreObstacles w obs sc =
     (map (\<lambda>ob. if \<not> passed ob \<and> obs_x ob + OBSTACLE_WIDTH < w / 2 - BIRD_SIZE / 2
                 then ob\<lparr>passed := True\<rparr> else ob) obs,
      sc + int (length (filter (\<lambda>ob. \<not> passed ob \<and>
                 obs_x ob + OBSTACLE_WIDTH < w / 2 - BIRD_SIZE / 2) obs)))"
  by (induction obs arbitrary: sc) auto


lemma takeDamage_obstacles: "obstacles (takeDamage s) = obstacles s"
  by (simp add: takeDamage_def endGame_def Let_def)


lemma takeDamage_charY: "charY (takeDamage s) = charY s"
  by (simp add: takeDamage_def endGame_def Let_def)

lemma takeDamage_cases:
  "takeDamage s = s \<and> isInvulnerable s \<or>
   \<not> isInvulnerable s \<and> lives s \<le> 1 \<and>
     takeDamage s = s\<lparr>lives := lives s - 1, gameState := GAME_OVER\<rparr> \<or>
   \<not> isInvulnerable s \<and> 1 < lives s \<and>
     takeDamage s =
       s\<lparr>lives := lives s - 1, isInvulnerable := True, velocity := - 5,
         timers := Suc (timers s)\<rparr>"
  by (auto simp: takeDamage_def endGame_def Let_def)

lemma update_not_playing: "gameState s \<noteq> PLAYING \<Longrightarrow> update f s = s"
  by (simp add: update_def)

lemma update_obstacles:
  "gameState s = PLAYING \<Longrightarrow>
   obstacles (update f s) =
     fst (scoreObstacles (real_of_int (fst (getContainerDimensions (frame_container f))))
            (advanceTrack f s) 0)"
  by (simp add: update_def Let_def takeDamage_obstacles scoreObstacles_eq split: prod.splits)


lemma update_charY:
  "gameState s = PLAYING \<Longrightarrow>
   charY (update f s) = charY s + (velocity s + GRAVITY * frame_dt f s) * frame_dt f s"
  by (simp add: update_def Let_def takeDamage_charY physics_def split: prod.splits)

lemma update_velocity:
  "gameState s = PLAYING \<Longrightarrow>
   velocity (update f s) =
     (if checkCollision (charY s + (velocity s + GRAVITY * frame_dt f s) * frame_dt f s)
           (advanceTrack f s)
           (real_of_int (snd (getContainerDimensions (frame_container f))))
           (real_of_int (fst (getContainerDimensions (frame_container f))))
         \<and> \<not> isInvulnerable s \<and> 1 < lives s
      then - 5 else velocity s + GRAVITY * frame_dt f s)"
  by (simp add: update_def Let_def takeDamage_def endGame_def physics_def split: prod.splits)

lemma update_lives_phase:
  assumes "gameState s = PLAYING"
  shows "(lives (update f s) = lives s \<and> gameState (update f s) = PLAYING) \<or>
         (lives (update f s) = lives s - 1 \<and>
          gameState (update f s) = (if lives s \<le> 1 then GAME_OVER else PLAYING))"
  using assms
    takeDamage_cases[of "(physics (frame_dt f s) (s\<lparr>lastTime := frame_time f\<rparr>))
                            \<lparr>obstacles := advanceTrack f s\<rparr>"]
  by (auto simp: update_def Let_def physics_def split: prod.splits)

section \<open>Properties of runs\<close>

lemma run_append: "run s (es @ es') = run (run s es) es'"
  by (induction es arbitrary: s) auto



lemma step_inv: "sessionInv s \<Longrightarrow> sessionInv (step e s)"
proof (cases e)
  case (FrameEvent f)
  assume inv: "sessionInv s"
  show ?thesis
  proof (cases "gameState s = PLAYING")
    case True
    with inv update_lives_phase[OF True, of f] FrameEvent show ?thesis
      by (auto simp: sessionInv_def TOTAL_LIVES_def split: GameState.splits if_splits)
  next
    case False
    with inv FrameEvent show ?thesis by (simp add: update_not_playing)
  qed
next
  case JumpEvent
  assume "sessionInv s"
  with JumpEvent show ?thesis by (auto simp: sessionInv_def jump_def split: GameState.splits)
next
  case TimeoutEvent
  assume "sessionInv s"
  with TimeoutEvent show ?thesis
    by (auto simp: sessionInv_def invulnerabilityTimeout_def split: GameState.splits)
qed

lemma step_lives_le: "lives (step e s) \<le> lives s"
proof (cases e)
  case (FrameEvent f)
  show ?thesis
  proof (cases "gameState s = PLAYING")
    case True
    with update_lives_phase[OF True, of f] FrameEvent show ?thesis by auto
  next
    case False
    with FrameEvent show ?thesis by (simp add: update_not_playing)
  qed
qed (auto simp: jump_def invulnerabilityTimeout_def)

lemma run_inv: "sessionInv s \<Longrightarrow> sessionInv (run s es)"
  by (induction es arbitrary: s) (auto intro: step_inv)

lemma run_lives_le: "lives (run s es) \<le> lives s"
proof (induction es arbitrary: s)
  case Nil
  show ?case by simp
next
  case (Cons e es)
  have "lives (run (step e s) es) \<le> lives (step e s)" by (rule Cons.IH)
  also have "\<dots> \<le> lives s" by (rule step_lives_le)
  finally show ?case by simp
qed

lemma step_game_over: "gameState s = GAME_OVER \<Longrightarrow> gameState (step e s) = GAME_OVER"
  by (cases e) (auto simp: update_not_playing jump_def invulnerabilityTimeout_def)

lemma run_game_over: "gameState s = GAME_OVER \<Longrightarrow> gameState (run s es) = GAME_OVER"
  by (induction es arbitrary: s) (auto dest: step_game_over)

lemma gameOverCount_eq:
  "gameOverCount s es =
     (if gameState s \<noteq> GAME_OVER \<and> gameState (run s es) = GAME_OVER then 1 else 0)"
proof (induction es arbitrary: s)
  case Nil
  show ?case by simp
next
  case (Cons e es)
  show ?case
  proof (cases "gameState (step e s) = GAME_OVER")
    case True
    with run_game_over[OF True, of es] Cons.IH[of "step e s"] step_game_over[of s e]
    show ?thesis by auto
  next
    case False
    with Cons.IH[of "step e s"] step_game_over[of s e] show ?thesis by auto
  qed
qed

lemma sessionInv_reset: "sessionInv (resetGame t s)"
  by (simp add: sessionInv_def resetGame_def TOTAL_LIVES_def)

subsection \<open>Identifiers\<close>











subsection \<open>Heights\<close>

lemma randomHeight_bounds:
  assumes "0 \<le> r" "r < 1" "400 \<le> H"
  shows "80 \<le> randomHeight (real_of_int H) r \<and>
         randomHeight (real_of_int H) r + OBSTACLE_GAP \<le> real_of_int H - 80"
proof -
  let ?M = "H - 399"
  have M: "real_of_int H - OBSTACLE_GAP - 80 - 80 + 1 = real_of_int ?M"
    by (simp add: OBSTACLE_GAP_def)
  have pos: "0 < real_of_int ?M" using assms(3) by simp
  have lo: "0 \<le> \<lfloor>r * real_of_int ?M\<rfloor>"
    using assms(1) pos by (simp add: zero_le_floor)
  have "r * real_of_int ?M < real_of_int ?M"
    using assms(2) pos by simp
  then have "\<lfloor>r * real_of_int ?M\<rfloor> < ?M" by (simp add: floor_less_iff)
  then have hi: "\<lfloor>r * real_of_int ?M\<rfloor> \<le> H - 400" by simp
  have rh: "randomHeight (real_of_int H) r = real_of_int \<lfloor>r * real_of_int ?M\<rfloor> + 80"
    unfolding randomHeight_def Let_def M by simp
  from lo have "80 \<le> real_of_int \<lfloor>r * real_of_int ?M\<rfloor> + 80" by simp
  moreover from hi have "real_of_int \<lfloor>r * real_of_int ?M\<rfloor> \<le> real_of_int (H - 400)"
    by (simp only: of_int_le_iff)
  ultimately show ?thesis unfolding rh by (simp add: OBSTACLE_GAP_def)
qed

lemma spawn_inBounds:
  assumes "400 \<le> H" "0 \<le> r" "r < 1" "\<forall>ob \<in> set obs. heightInBounds H ob"
  shows "\<forall>ob \<in> set (spawn w (real_of_int H) r now obs). heightInBounds H ob"
  using assms(4) randomHeight_bounds[OF assms(2,3,1)]
  by (auto simp: spawn_def heightInBounds_def)

lemma moved_inBounds:
  "\<forall>ob \<in> set obs. heightInBounds H ob \<Longrightarrow>
   \<forall>ob \<in> set (removeOffscreen (moveObstacles dt obs)). heightInBounds H ob"
  by (auto simp: removeOffscreen_def moveObstacles_def heightInBounds_def)

lemma scored_inBounds:
  "\<forall>ob \<in> set obs. heightInBounds H ob \<Longrightarrow>
   \<forall>ob \<in> set (fst (scoreObstacles w obs sc)). heightInBounds H ob"
  by (auto simp: scoreObstacles_eq heightInBounds_def)

lemma advanceTrack_eq:
  "advanceTrack f s =
     spawn (real_of_int (fst (getContainerDimensions (frame_container f))))
       (real_of_int (snd (getContainerDimensions (frame_container f))))
       (frame_random f) (frame_now f)
       (removeOffscreen (moveObstacles (frame_dt f s) (obstacles s)))"
  by (simp add: advanceTrack_def split: prod.splits)

lemma update_inBounds:
  assumes "400 \<le> H" "snd (getContainerDimensions (frame_container f)) = H"
    "0 \<le> frame_random f" "frame_random f < 1" "\<forall>ob \<in> set (obstacles s). heightInBounds H ob"
  shows "\<forall>ob \<in> set (obstacles (update f s)). heightInBounds H ob"
proof (cases "gameState s = PLAYING")
  case True
  have "\<forall>ob \<in> set (advanceTrack f s). heightInBounds H ob"
    unfolding advanceTrack_eq assms(2)
    by (rule spawn_inBounds[OF assms(1,3,4) moved_inBounds[OF assms(5)]])
  then show ?thesis
    unfolding update_obstacles[OF True] by (rule scored_inBounds)
next
  case False
  with assms(5) show ?thesis by (simp add: update_not_playing)
qed

lemma run_inBounds:
  assumes "400 \<le> H"
  shows "\<forall>f \<in> set (framesOf es). snd (getContainerDimensions (frame_container f)) = H \<and>
           0 \<le> frame_random f \<and> frame_random f < 1 \<Longrightarrow>
         \<forall>ob \<in> set (obstacles s). heightInBounds H ob \<Longrightarrow>
         \<forall>ob \<in> set (obstacles (run s es)). heightInBounds H ob"
proof (induction es arbitrary: s)
  case Nil
  then show ?case by simp
next
  case (Cons e es)
  have "\<forall>ob \<in> set (obstacles (step e s)). heightInBounds H ob"
  proof (cases e)
    case (FrameEvent f)
    with Cons.prems(1) have "snd (getContainerDimensions (frame_container f)) = H"
      "0 \<le> frame_random f" "frame_random f < 1" by auto
    from update_inBounds[OF assms this Cons.prems(2)] FrameEvent show ?thesis by simp
  next
    case JumpEvent
    with Cons.prems(2) show ?thesis by (simp add: jump_def)
  next
    case TimeoutEvent
    with Cons.prems(2) show ?thesis by (simp add: invulnerabilityTimeout_def)
  qed
  moreover have "\<forall>f \<in> set (framesOf es). snd (getContainerDimensions (frame_container f)) = H \<and>
           0 \<le> frame_random f \<and> frame_random f < 1"
    using Cons.prems(1) by (cases e) auto
  ultimately show ?case using Cons.IH by simp
qed

section \<open>Scoring\<close>




section \<open>Lives and the end of the game\<close>

text \<open>
  C2: along every sequence of frames, jumps and time-outs of a session started by
  \<open>resetGame\<close>, \<open>lives\<close> stays between 0 and \<open>TOTAL_LIVES\<close> and never increases;
  it is 0 exactly when the phase is \<open>GAME_OVER\<close>; from then on a frame leaves the state
  as it is; and the phase becomes \<open>GAME_OVER\<close> once if the lives reach 0 and never
  otherwise.
\<close>

theorem lives_bounded_game_over_once:
  "0 \<le> lives (run (resetGame t s) es) \<and> lives (run (resetGame t s) es) \<le> TOTAL_LIVES
   \<and> lives (run (resetGame t s) (es @ es')) \<le> lives (run (resetGame t s) es)
   \<and> (lives (run (resetGame t s) es) = 0 \<longleftrightarrow> gameState (run (resetGame t s) es) = GAME_OVER)
   \<and> (lives (run (resetGame t s) es) = 0 \<longrightarrow>
        update f (run (resetGame t s) es) = run (resetGame t s) es)
   \<and> gameOverCount (resetGame t s) es = (if lives (run (resetGame t s) es) = 0 then 1 else 0)"
proof -
  let ?s0 = "resetGame t s"
  have inv: "sessionInv (run ?s0 es)"
    by (rule run_inv[OF sessionInv_reset])
  have ph: "gameState ?s0 = PLAYING" by (simp add: resetGame_def)
  from inv have b: "0 \<le> lives (run ?s0 es) \<and> lives (run ?s0 es) \<le> TOTAL_LIVES"
    by (auto simp: sessionInv_def TOTAL_LIVES_def split: GameState.splits)
  have m: "lives (run ?s0 (es @ es')) \<le> lives (run ?s0 es)"
    by (simp add: run_append run_lives_le)
  from inv have z: "lives (run ?s0 es) = 0 \<longleftrightarrow> gameState (run ?s0 es) = GAME_OVER"
    by (auto simp: sessionInv_def split: GameState.splits)
  from z have h: "lives (run ?s0 es) = 0 \<longrightarrow> update f (run ?s0 es) = run ?s0 es"
    by (simp add: update_not_playing)
  have c: "gameOverCount ?s0 es = (if lives (run ?s0 es) = 0 then 1 else 0)"
    using z ph by (simp add: gameOverCount_eq)
  from b m z h c show ?thesis by blast
qed

text \<open>
  Witness for C2: in the session \<open>hitEvents\<close> the lives go from 3 to 0, the phase is then
  \<open>GAME_OVER\<close>, it has become so once, and a further frame changes nothing.
\<close>

theorem lives_bounded_game_over_once_witness:
  "lives (run (resetGame 0 initialState) hitEvents) = 0 \<and>
   gameState (run (resetGame 0 initialState) hitEvents) = GAME_OVER \<and>
   gameOverCount (resetGame 0 initialState) hitEvents = 1 \<and>
   update (exampleFrame 64 (Some (400, 300)) 1048) (run (resetGame 0 initialState) hitEvents) =
     run (resetGame 0 initialState) hitEvents"
proof -
  have l: "lives (run (resetGame 0 initialState) hitEvents) = 0"
    by (simp add: eval_defs hitEvents_def)
  from l lives_bounded_game_over_once[where t = 0 and s = initialState and es = hitEvents
      and es' = "[]" and f = "exampleFrame 64 (Some (400, 300)) 1048"]
  show ?thesis by simp
qed

section \<open>Collision detection\<close>






section \<open>Physics\<close>

text \<open>
  C4: in a playing frame with time step \<open>dt\<close> the physics step sets the velocity to
  \<open>v + GRAVITY * dt\<close> and then the position to \<open>y\<close> plus the new velocity times
  \<open>dt\<close>. The position at the end of the frame is that position; the velocity at the end of
  the frame is that velocity, unless the frame takes damage with a life to spare, which sets
  it to \<open>- 5\<close>. From velocity 0 and with \<open>dt = 1\<close>, the step makes the velocity
  \<open>GRAVITY\<close> and the frame moves the position by \<open>GRAVITY\<close>.
\<close>

theorem physics_integrator_step:
  assumes "gameState s = PLAYING"
  shows "velocity (physics (frame_dt f s) s) = velocity s + GRAVITY * frame_dt f s
   \<and> charY (physics (frame_dt f s) s) =
       charY s + velocity (physics (frame_dt f s) s) * frame_dt f s
   \<and> charY (update f s) = charY (physics (frame_dt f s) s)
   \<and> velocity (update f s) =
       (if checkCollision (charY (physics (frame_dt f s) s)) (advanceTrack f s)
             (real_of_int (snd (getContainerDimensions (frame_container f))))
             (real_of_int (fst (getContainerDimensions (frame_container f))))
           \<and> \<not> isInvulnerable s \<and> 1 < lives s
        then - 5 else velocity (physics (frame_dt f s) s))
   \<and> (velocity s = 0 \<and> frame_dt f s = 1 \<longrightarrow>
        velocity (physics (frame_dt f s) s) = GRAVITY \<and>
        charY (physics (frame_dt f s) s) = charY s + GRAVITY \<and>
        charY (update f s) = charY s + GRAVITY)"
proof -
  have v: "velocity (physics (frame_dt f s) s) = velocity s + GRAVITY * frame_dt f s"
    by (simp add: physics_def Let_def)
  have y: "charY (physics (frame_dt f s) s) =
      charY s + velocity (physics (frame_dt f s) s) * frame_dt f s"
    by (simp add: physics_def Let_def)
  have uy: "charY (update f s) = charY (physics (frame_dt f s) s)"
    unfolding y v by (rule update_charY[OF assms])
  have uv: "velocity (update f s) =
       (if checkCollision (charY (physics (frame_dt f s) s)) (advanceTrack f s)
             (real_of_int (snd (getContainerDimensions (frame_container f))))
             (real_of_int (fst (getContainerDimensions (frame_container f))))
           \<and> \<not> isInvulnerable s \<and> 1 < lives s
        then - 5 else velocity (physics (frame_dt f s) s))"
    unfolding y v by (rule update_velocity[OF assms])
  have one: "velocity s = 0 \<and> frame_dt f s = 1 \<longrightarrow>
        velocity (physics (frame_dt f s) s) = GRAVITY \<and>
        charY (physics (frame_dt f s) s) = charY s + GRAVITY \<and>
        charY (update f s) = charY s + GRAVITY"
    unfolding uy by (simp add: physics_def Let_def)
  from v y uy uv one show ?thesis by blast
qed

text \<open>
  Witness for C4: a fresh session on the default playfield, one frame 16.66 ms after the
  start: the time step is 1, the velocity becomes \<open>GRAVITY\<close> and the position
  \<open>300 + GRAVITY\<close>.
\<close>

theorem physics_integrator_step_witness:
  "gameState (resetGame 0 initialState) = PLAYING \<and>
   velocity (resetGame 0 initialState) = 0 \<and>
   frame_dt (exampleFrame (1666 / 100) None 1000) (resetGame 0 initialState) = 1 \<and>
   velocity (update (exampleFrame (1666 / 100) None 1000) (resetGame 0 initialState)) = GRAVITY \<and>
   charY (update (exampleFrame (1666 / 100) None 1000) (resetGame 0 initialState)) = 300 + GRAVITY"
proof -
  have p: "gameState (resetGame 0 initialState) = PLAYING"
    by (simp add: resetGame_def)
  have d: "frame_dt (exampleFrame (1666 / 100) None 1000) (resetGame 0 initialState) = 1"
    by (simp add: eval_defs)
  have n: "\<not> checkCollision (300 + GRAVITY)
      (advanceTrack (exampleFrame (1666 / 100) None 1000) (resetGame 0 initialState)) 600 400"
    by (simp add: eval_defs)
  have c: "frame_container (exampleFrame (1666 / 100) None 1000) = None"
    "velocity (resetGame 0 initialState) = 0" "charY (resetGame 0 initialState) = 300"
    by (simp_all add: exampleFrame_def resetGame_def)
  from physics_integrator_step[OF p, of "exampleFrame (1666 / 100) None 1000"] d n c p
  show ?thesis by simp
qed

section \<open>Damage\<close>

text \<open>
  C5: while the character is invulnerable, \<open>takeDamage\<close> returns the state as it is: lives,
  velocity, invulnerability flag, phase and the number of pending time-outs are unchanged.
  So a playing frame with the character invulnerable changes none of lives, flag, phase and
  pending time-outs, hazard or not.
\<close>

theorem takeDamage_invulnerable_noop:
  assumes "isInvulnerable s"
  shows "takeDamage s = s
   \<and> lives (takeDamage s) = lives s \<and> velocity (takeDamage s) = velocity s
   \<and> isInvulnerable (takeDamage s) = isInvulnerable s
   \<and> gameState (takeDamage s) = gameState s \<and> timers (takeDamage s) = timers s
   \<and> lives (update f s) = lives s \<and> isInvulnerable (update f s)
   \<and> gameState (update f s) = gameState s \<and> timers (update f s) = timers s"
proof -
  have t: "takeDamage s = s" using assms by (simp add: takeDamage_def)
  have u: "lives (update f s) = lives s \<and> isInvulnerable (update f s)
      \<and> gameState (update f s) = gameState s \<and> timers (update f s) = timers s"
    using assms
    by (simp add: update_def Let_def takeDamage_def physics_def split: prod.splits)
  from t u show ?thesis by simp
qed

text \<open>
  Witness for C5: after the first frame of \<open>hitEvents\<close> the character is invulnerable with
  two lives, and \<open>takeDamage\<close> leaves that state as it is.
\<close>

theorem takeDamage_invulnerable_noop_witness:
  "isInvulnerable (run (resetGame 0 initialState) (take 1 hitEvents)) \<and>
   lives (run (resetGame 0 initialState) (take 1 hitEvents)) = 2 \<and>
   takeDamage (run (resetGame 0 initialState) (take 1 hitEvents)) =
     run (resetGame 0 initialState) (take 1 hitEvents)"
proof -
  have i: "isInvulnerable (run (resetGame 0 initialState) (take 1 hitEvents))"
    "lives (run (resetGame 0 initialState) (take 1 hitEvents)) = 2"
    by (simp_all add: eval_defs hitEvents_def)
  from takeDamage_invulnerable_noop[OF i(1)] i show ?thesis by simp
qed

text \<open>
  C10: when damage is taken while vulnerable with at least two lives, the velocity is set
  to \<open>- 5\<close> whatever it was before: it is negative, that is upward, and smaller in
  magnitude than the jump impulse \<open>JUMP_STRENGTH = - 8\<close>.
\<close>

theorem takeDamage_velocity_reset:
  assumes "\<not> isInvulnerable s" and "2 \<le> lives s"
  shows "velocity (takeDamage s) = - 5
   \<and> velocity (takeDamage (s\<lparr>velocity := v\<rparr>)) = - 5
   \<and> velocity (takeDamage s) < 0
   \<and> \<bar>velocity (takeDamage s)\<bar> = 5 \<and> \<bar>JUMP_STRENGTH\<bar> = 8
   \<and> \<bar>velocity (takeDamage s)\<bar> < \<bar>JUMP_STRENGTH\<bar>"
  using assms by (simp add: takeDamage_def JUMP_STRENGTH_def Let_def)

text \<open>
  Witness for C10: a fresh session, with three lives and vulnerable, falling at velocity 40:
  after the damage the velocity is \<open>- 5\<close>.
\<close>

theorem takeDamage_velocity_reset_witness:
  "\<not> isInvulnerable (resetGame 0 initialState) \<and> 2 \<le> lives (resetGame 0 initialState) \<and>
   velocity (takeDamage ((resetGame 0 initialState)\<lparr>velocity := 40\<rparr>)) = - 5"
proof -
  have h: "\<not> isInvulnerable (resetGame 0 initialState)" "2 \<le> lives (resetGame 0 initialState)"
    by (simp_all add: resetGame_def TOTAL_LIVES_def)
  from takeDamage_velocity_reset[OF h, of 40] h show ?thesis by simp
qed

section \<open>Spawning\<close>

text \<open>
  C6, as the code has it: on a playfield whose height \<open>H\<close> is at least 400, with
  \<open>Math.random()\<close> in \<open>[0, 1)\<close>, every obstacle that \<open>spawn\<close> adds has
  \<open>80 \<le> topHeight\<close> and \<open>topHeight + OBSTACLE_GAP \<le> H - 80\<close>; and along a session
  whose frames all measure that height, every obstacle of the track keeps these bounds if
  those of the first track do.
\<close>

theorem spawned_topHeight_in_bounds:
  assumes "400 \<le> H"
  shows "(0 \<le> r \<and> r < 1 \<longrightarrow>
            (\<forall>ob \<in> set (spawn w (real_of_int H) r now obs). ob \<in> set obs \<or> heightInBounds H ob))
   \<and> ((\<forall>f \<in> set (framesOf es). snd (getContainerDimensions (frame_container f)) = H \<and>
           0 \<le> frame_random f \<and> frame_random f < 1) \<and>
       (\<forall>ob \<in> set (obstacles s). heightInBounds H ob) \<longrightarrow>
       (\<forall>ob \<in> set (obstacles (run s es)). heightInBounds H ob))"
proof -
  have a: "\<forall>ob \<in> set (spawn w (real_of_int H) r now obs). ob \<in> set obs \<or> heightInBounds H ob"
    if "0 \<le> r" "r < 1"
    using randomHeight_bounds[OF that assms] by (auto simp: spawn_def heightInBounds_def)
  from a run_inBounds[OF assms, of es s] show ?thesis by blast
qed

text \<open>
  Witness for C6: the first frame of a fresh session on the default playfield, 600 high,
  with \<open>Math.random() = 1/2\<close>, spawns an obstacle of height 180, within the bounds.
\<close>

theorem spawned_topHeight_in_bounds_witness:
  "(400 :: int) \<le> 600 \<and>
   map topHeight (obstacles (run (resetGame 0 initialState)
      [FrameEvent (exampleFrame 16 None 1000)])) = [180] \<and>
   map (heightInBounds 600) (obstacles (run (resetGame 0 initialState)
      [FrameEvent (exampleFrame 16 None 1000)])) = [True]"
proof -
  have h: "(400 :: int) \<le> 600" by simp
  have e: "map topHeight (obstacles (run (resetGame 0 initialState)
      [FrameEvent (exampleFrame 16 None 1000)])) = [180]"
    by (simp add: eval_defs)
  have p: "\<forall>f \<in> set (framesOf [FrameEvent (exampleFrame 16 None 1000)]).
      snd (getContainerDimensions (frame_container f)) = 600 \<and>
      0 \<le> frame_random f \<and> frame_random f < 1"
    by (simp add: exampleFrame_def)
  have q: "\<forall>ob \<in> set (obstacles (resetGame 0 initialState)). heightInBounds 600 ob"
    by (simp add: resetGame_def)
  from spawned_topHeight_in_bounds[OF h, where es = "[FrameEvent (exampleFrame 16 None 1000)]"
      and s = "resetGame 0 initialState"] p q
  have "\<forall>ob \<in> set (obstacles (run (resetGame 0 initialState)
      [FrameEvent (exampleFrame 16 None 1000)])). heightInBounds 600 ob"
    by blast
  moreover from e obtain ob where "obstacles (run (resetGame 0 initialState)
      [FrameEvent (exampleFrame 16 None 1000)]) = [ob]"
    by auto
  ultimately show ?thesis using h e by simp
qed

text \<open>
  Counterexample to C6 as stated: on a playfield 300 high, with \<open>Math.random() = 1/2\<close>,
  the first frame of a fresh session spawns an obstacle of height 30, below the minimum 80,
  whose gap ends at 270, below the line \<open>300 - 80\<close>.
\<close>

theorem spawned_topHeight_counterexample:
  "obstacles (update (exampleFrame 16 (Some (400, 300)) 1000) (resetGame 0 initialState)) =
     [\<lparr>obs_id = 1000, obs_x = 450, topHeight = 30, width = 64, passed = False\<rparr>]
   \<and> (30 :: real) < 80 \<and> (30 :: real) + OBSTACLE_GAP > 300 - 80"
  by (simp add: eval_defs)

section \<open>Playfield measurement\<close>

text \<open>
  C7, as the code has it: when the playfield element is missing, the default size 400 by 600
  is used, and a frame behaves as if that size had been measured; when the element is
  there, its measured size is used as it is.
\<close>

theorem getContainerDimensions_fallback:
  "getContainerDimensions None = (400, 600)
   \<and> getContainerDimensions (Some (cw, ch)) = (cw, ch)
   \<and> update (f\<lparr>frame_container := None\<rparr>) s = update (f\<lparr>frame_container := Some (400, 600)\<rparr>) s"
  by (simp add: update_def advanceTrack_def frame_dt_def)

text \<open>
  Counterexample to C7 as stated: a playfield measured as 0 by 0 is used as it is; the
  first frame of a fresh session then spawns its obstacle at \<open>x = 50\<close> with height
  \<open>- 120\<close>, where the default size gives \<open>x = 450\<close>.
\<close>

theorem getContainerDimensions_zero_counterexample:
  "getContainerDimensions (Some (0, 0)) = (0, 0) \<and>
   map obs_x (obstacles (update (exampleFrame 16 (Some (0, 0)) 1000)
     (resetGame 0 initialState))) = [50] \<and>
   map topHeight (obstacles (update (exampleFrame 16 (Some (0, 0)) 1000)
     (resetGame 0 initialState))) = [- 120] \<and>
   map obs_x (obstacles (update (exampleFrame 16 None 1000) (resetGame 0 initialState))) = [450]"
  by (simp add: eval_defs)

section \<open>Identifiers\<close>




end
